theory Spec2Isabelle
  imports Main
begin

section \<open>The build command of setup.py\<close>

text \<open>
  The class \<open>Make\<close> of setup.py sequences external processes. Its only effects are
  calls into \<open>subprocess\<close> and \<open>tempfile\<close>, so the embedding threads a trace of
  those calls through every method, and an exception is a value: a method maps the trace so
  far to a result (\<open>Inl\<close> the exception raised, \<open>Inr\<close> the value returned) and the
  trace extended by what it did before returning or raising.
\<close>

subsection \<open>Processes, events and the environment\<close>

text \<open>Where a stream of a child process is connected.\<close>

datatype stream = Inherit | Pipe | ToFile nat

text \<open>
  The arguments of \<open>subprocess.call\<close> and \<open>subprocess.Popen\<close>: the argument vector,
  the \<open>shell\<close> flag (\<open>False\<close> unless given) and the redirections of standard input and
  output (inherited unless given).
\<close>

record proc_spec =
  args :: "string list"
  shell :: bool
  stdin :: stream
  stdout :: stream

text \<open>
  What the command does to the outside world. A process is named by the number of processes
  started before it, a temporary file by the number of temporary files opened before it.
  \<open>Wait\<close> records the exit status it returned; \<open>CloseStdin\<close> is the close of the pipe
  to a child's standard input.
\<close>

datatype event =
    Spawn nat proc_spec
  | Wait nat int
  | Write nat string
  | CloseStdin nat
  | TmpOpen nat
  | TmpClose nat

datatype exn = ValueError string | BrokenPipeError | OSError

type_synonym 'a io = "event list \<Rightarrow> (exn + 'a) \<times> event list"

text \<open>
  The environment: the exit status of the \<open>n\<close>-th process started, given its argument
  vector; whether the \<open>n\<close>-th write to a child's standard input raises; and whether
  \<open>subprocess.Popen\<close>, asked to start the process with number \<open>n\<close>, cannot start it (the
  program is missing or not executable, or no process can be created).
\<close>

record world =
  exit_status :: "nat \<Rightarrow> string list \<Rightarrow> int"
  write_fails :: "nat \<Rightarrow> bool"
  popen_fails :: "nat \<Rightarrow> bool"

fun spawned :: "event list \<Rightarrow> proc_spec list" where
  "spawned [] = []"
| "spawned (Spawn p sp # es) = sp # spawned es"
| "spawned (e # es) = spawned es"

fun written :: "event list \<Rightarrow> string list" where
  "written [] = []"
| "written (Write p bs # es) = bs # written es"
| "written (e # es) = written es"

fun opened :: "event list \<Rightarrow> nat list" where
  "opened [] = []"
| "opened (TmpOpen f # es) = f # opened es"
| "opened (e # es) = opened es"

definition bind :: "'a io \<Rightarrow> ('a \<Rightarrow> 'b io) \<Rightarrow> 'b io" where
  "bind m k tr = (case m tr of (Inl e, tr') \<Rightarrow> (Inl e, tr') | (Inr x, tr') \<Rightarrow> k x tr')"

subsection \<open>The library calls the command makes\<close>

text \<open>
  \<open>str.split()\<close> without arguments: the maximal runs of characters that are not whitespace.
  A character is its code point below 256; those are the whitespace code points of a Python
  string in that range.
\<close>

definition whitespace :: string where
  "whitespace = [CHR 0x09, CHR 0x0A, CHR 0x0B, CHR 0x0C, CHR 0x0D, CHR 0x1C, CHR 0x1D,
                 CHR 0x1E, CHR 0x1F, CHR 0x20, CHR 0x85, CHR 0xA0]"

definition isspace :: "char \<Rightarrow> bool" where
  "isspace c = (c \<in> set whitespace)"

fun split_from :: "string \<Rightarrow> string \<Rightarrow> string list" where
  "split_from tok [] = (if tok = [] then [] else [tok])"
| "split_from tok (c # cs) =
     (if isspace c then (if tok = [] then split_from [] cs else tok # split_from [] cs)
      else split_from (tok @ [c]) cs)"

definition str_split :: "string \<Rightarrow> string list" where
  "str_split s = split_from [] s"

text \<open>
  \<open>subprocess.call(argv)\<close> starts the process, waits for it and returns its exit status.
  The commands run this way are taken to start and to yield a status: what is said of them
  is said in terms of their exit statuses.
\<close>

definition subprocess_call :: "world \<Rightarrow> string list \<Rightarrow> int io" where
  "subprocess_call w argv tr =
     (let p = length (spawned tr); code = exit_status w p argv
      in (Inr code,
          tr @ [Spawn p \<lparr>args = argv, shell = False, stdin = Inherit, stdout = Inherit\<rparr>,
                Wait p code]))"

text \<open>
  \<open>subprocess.Popen(argv, stdin=.., stdout=..)\<close> starts the process and returns at once
  with its handle; nothing waits for the child. When the child cannot be started it raises
  \<open>OSError\<close> and no process exists.
\<close>

definition subprocess_Popen :: "world \<Rightarrow> string list \<Rightarrow> stream \<Rightarrow> stream \<Rightarrow> nat io" where
  "subprocess_Popen w argv i out tr =
     (let p = length (spawned tr)
      in if popen_fails w p then (Inl OSError, tr)
         else (Inr p, tr @ [Spawn p \<lparr>args = argv, shell = False, stdin = i, stdout = out\<rparr>]))"

text \<open>
  \<open>p.stdin.write(bs)\<close>: the event records the call and its bytes, not their arrival at the
  child.
\<close>

definition stdin_write :: "world \<Rightarrow> nat \<Rightarrow> string \<Rightarrow> unit io" where
  "stdin_write w p bs tr =
     (if write_fails w (length (written tr)) then (Inl BrokenPipeError, tr)
      else (Inr (), tr @ [Write p bs]))"

definition tempfile_TemporaryFile :: "nat io" where
  "tempfile_TemporaryFile tr = (let f = length (opened tr) in (Inr f, tr @ [TmpOpen f]))"

definition file_close :: "nat \<Rightarrow> unit io" where
  "file_close f tr = (Inr (), tr @ [TmpClose f])"

subsection \<open>The class Make\<close>

record Make =
  agree_cpc :: "string option"

definition initialize_options :: Make where
  "initialize_options = \<lparr>agree_cpc = None\<rparr>"

definition finalize_options :: "Make \<Rightarrow> unit io" where
  "finalize_options self tr =
     (case agree_cpc self of
        None \<Rightarrow> (Inr (), tr)
      | Some v \<Rightarrow>
          if v \<noteq> ''yes'' then (Inl (ValueError (''--agree-cpc should be yes. Given: '' @ v)), tr)
          else (Inr (), tr))"

text \<open>The method \<open>_call\<close>.\<close>

fun call :: "world \<Rightarrow> string list \<Rightarrow> unit io" where
  "call w [] tr = (Inr (), tr)"
| "call w (command # commands) tr =
     (case subprocess_call w (str_split command) tr of
        (Inl e, tr') \<Rightarrow> (Inl e, tr')
      | (Inr code, tr') \<Rightarrow>
          if code \<noteq> 0 then (Inl (ValueError (''Install failed at '' @ command)), tr')
          else call w commands tr')"

definition autoconf :: "world \<Rightarrow> unit io" where
  "autoconf w = call w [''autoconf -o configure ac-tools/configure.ac'']"

definition configure :: "world \<Rightarrow> Make \<Rightarrow> unit io" where
  "configure w self =
     (if agree_cpc self = None then call w [''./configure --prefix=$PWD/bin --with-cpc-modules'']
      else
        (let command = ''./configure --prefix=$PWD/bin --with-cpc-modules'' in
         bind tempfile_TemporaryFile (\<lambda>f.
         bind (subprocess_Popen w (str_split command) Pipe (ToFile f)) (\<lambda>p.
         bind (stdin_write w p (''yes'' @ [CHR 0x0A])) (\<lambda>_.
         bind (stdin_write w p [CHR 0x0A]) (\<lambda>_.
         file_close f))))))"

definition make :: "world \<Rightarrow> unit io" where
  "make w = call w [''make'', ''make check'', ''make install'']"

definition clean :: "world \<Rightarrow> unit io" where
  "clean w = bind (subprocess_call w (str_split ''make clean'')) (\<lambda>code. Pair (Inr ()))"

definition run :: "world \<Rightarrow> Make \<Rightarrow> unit io" where
  "run w self =
     bind (autoconf w) (\<lambda>_.
     bind (configure w self) (\<lambda>_.
     bind (clean w) (\<lambda>_.
     make w)))"

subsection \<open>Notions used in the statements\<close>

text \<open>A process started by \<open>subprocess.call\<close>: direct execution, streams inherited.\<close>

definition direct :: "string list \<Rightarrow> proc_spec" where
  "direct argv = \<lparr>args = argv, shell = False, stdin = Inherit, stdout = Inherit\<rparr>"

text \<open>
  The exit status of the \<open>j\<close>-th command of a sequence whose first process has number
  \<open>p\<close>, and the events of running a sequence to its end.
\<close>

definition status_at :: "world \<Rightarrow> nat \<Rightarrow> string list \<Rightarrow> nat \<Rightarrow> int" where
  "status_at w p cmds j = exit_status w (p + j) (str_split (cmds ! j))"

fun seq_events :: "world \<Rightarrow> nat \<Rightarrow> string list \<Rightarrow> event list" where
  "seq_events w p [] = []"
| "seq_events w p (c # cs) =
     Spawn p (direct (str_split c)) # Wait p (exit_status w p (str_split c)) #
     seq_events w (Suc p) cs"

text \<open>The temporary files closed, in order.\<close>

fun closed :: "event list \<Rightarrow> nat list" where
  "closed [] = []"
| "closed (TmpClose f # es) = f # closed es"
| "closed (e # es) = closed es"

text \<open>
  A trace is sequential when no process is started while an earlier one has not been waited
  for. \<open>sequential_from r\<close> reads the trace with \<open>r\<close> the process not yet waited for,
  \<open>live_after r\<close> is that process at the end of the trace.
\<close>

fun sequential_from :: "nat option \<Rightarrow> event list \<Rightarrow> bool" where
  "sequential_from r [] = True"
| "sequential_from r (Spawn p sp # es) = (r = None \<and> sequential_from (Some p) es)"
| "sequential_from r (Wait p c # es) = sequential_from (if r = Some p then None else r) es"
| "sequential_from r (e # es) = sequential_from r es"

fun live_after :: "nat option \<Rightarrow> event list \<Rightarrow> nat option" where
  "live_after r [] = r"
| "live_after r (Spawn p sp # es) = live_after (Some p) es"
| "live_after r (Wait p c # es) = live_after (if r = Some p then None else r) es"
| "live_after r (e # es) = live_after r es"

definition sequential :: "event list \<Rightarrow> bool" where
  "sequential tr = sequential_from None tr"

definition quiet :: "event list \<Rightarrow> bool" where
  "quiet tr = (sequential_from None tr \<and> live_after None tr = None)"

text \<open>
  For each process started, in order, its argument vector and its \<open>shell\<close> flag; and what
  \<open>subprocess\<close> is handed for a command string that is split and executed directly.
\<close>

definition argvs :: "event list \<Rightarrow> (string list \<times> bool) list" where
  "argvs tr = map (\<lambda>sp. (args sp, shell sp)) (spawned tr)"

definition tokenized :: "string \<Rightarrow> string list \<times> bool" where
  "tokenized c = (str_split c, False)"

text \<open>The command strings of the four phases, in the order \<open>run\<close> goes through them.\<close>

definition run_commands :: "string list" where
  "run_commands =
     [''autoconf -o configure ac-tools/configure.ac'',
      ''./configure --prefix=$PWD/bin --with-cpc-modules'',
      ''make clean'', ''make'', ''make check'', ''make install'']"

text \<open>
  An action starts the processes \<open>xs\<close>: it starts a prefix of them, in order, and nothing
  else, and all of them when it returns normally.
\<close>

definition starts :: "(string list \<times> bool) list \<Rightarrow> 'a io \<Rightarrow> bool" where
  "starts xs m =
     (\<forall>tr. \<exists>n\<le>length xs. argvs (snd (m tr)) = argvs tr @ take n xs \<and>
             (\<forall>x. fst (m tr) = Inr x \<longrightarrow> n = length xs))"

subsection \<open>Environments\<close>

text \<open>Every process starts and exits with status \<open>c\<close>, and no write fails.\<close>

definition always_exit :: "int \<Rightarrow> world" where
  "always_exit c =
     \<lparr>exit_status = (\<lambda>p argv. c), write_fails = (\<lambda>n. False), popen_fails = (\<lambda>p. False)\<rparr>"

text \<open>Only the process with number \<open>n\<close> exits with a non-zero status, \<open>c\<close>.\<close>

definition only_fails :: "nat \<Rightarrow> int \<Rightarrow> world" where
  "only_fails n c =
     \<lparr>exit_status = (\<lambda>p argv. if p = n then c else 0), write_fails = (\<lambda>n. False),
      popen_fails = (\<lambda>p. False)\<rparr>"

text \<open>
  Every process run by \<open>subprocess.call\<close> exits with status 0; \<open>subprocess.Popen\<close> cannot
  start a child.
\<close>

definition child_not_started :: world where
  "child_not_started =
     \<lparr>exit_status = (\<lambda>p argv. 0), write_fails = (\<lambda>n. False), popen_fails = (\<lambda>p. True)\<rparr>"

text \<open>The environment \<open>w\<close>, except that \<open>make clean\<close> exits with status 0.\<close>

definition clean_succeeds :: "world \<Rightarrow> world" where
  "clean_succeeds w =
     w\<lparr>exit_status :=
         (\<lambda>p argv. if argv = str_split ''make clean'' then 0 else exit_status w p argv)\<rparr>"

section \<open>Basic facts\<close>

lemma spawned_append: "spawned (xs @ ys) = spawned xs @ spawned ys"
  by (induction xs rule: spawned.induct) simp_all

lemma written_append: "written (xs @ ys) = written xs @ written ys"
  by (induction xs rule: written.induct) simp_all

lemma opened_append: "opened (xs @ ys) = opened xs @ opened ys"
  by (induction xs rule: opened.induct) simp_all

lemma closed_append: "closed (xs @ ys) = closed xs @ closed ys"
  by (induction xs rule: closed.induct) simp_all

lemma sequential_from_append:
  "sequential_from r (xs @ ys) = (sequential_from r xs \<and> sequential_from (live_after r xs) ys)"
  by (induction r xs rule: sequential_from.induct) simp_all

lemma live_after_append: "live_after r (xs @ ys) = live_after (live_after r xs) ys"
  by (induction r xs rule: live_after.induct) simp_all

lemma split_autoconf:
  "str_split ''autoconf -o configure ac-tools/configure.ac'' =
     [''autoconf'', ''-o'', ''configure'', ''ac-tools/configure.ac'']"
  by (simp add: str_split_def isspace_def whitespace_def)

lemma split_configure:
  "str_split ''./configure --prefix=$PWD/bin --with-cpc-modules'' =
     [''./configure'', ''--prefix=$PWD/bin'', ''--with-cpc-modules'']"
  by (simp add: str_split_def isspace_def whitespace_def)

lemma split_make_clean: "str_split ''make clean'' = [''make'', ''clean'']"
  by (simp add: str_split_def isspace_def whitespace_def)

lemma split_make: "str_split ''make'' = [''make'']"
  by (simp add: str_split_def isspace_def whitespace_def)

lemma split_make_check: "str_split ''make check'' = [''make'', ''check'']"
  by (simp add: str_split_def isspace_def whitespace_def)

lemma split_make_install: "str_split ''make install'' = [''make'', ''install'']"
  by (simp add: str_split_def isspace_def whitespace_def)

lemmas split_commands =
  split_autoconf split_configure split_make_clean split_make split_make_check split_make_install

lemmas steps = bind_def subprocess_call_def subprocess_Popen_def stdin_write_def
  tempfile_TemporaryFile_def file_close_def Let_def

lemmas phases = run_def autoconf_def configure_def clean_def make_def

subsection \<open>One step of the sequence executor\<close>

lemma call_Cons_ok:
  "exit_status w (length (spawned tr)) (str_split c) = 0 \<Longrightarrow>
   call w (c # cs) tr =
     call w cs (tr @ [Spawn (length (spawned tr)) (direct (str_split c)),
                      Wait (length (spawned tr)) 0])"
  by (simp only: call.simps subprocess_call_def) (simp add: Let_def direct_def)

lemma call_Cons_fail:
  "exit_status w (length (spawned tr)) (str_split c) \<noteq> 0 \<Longrightarrow>
   call w (c # cs) tr =
     (Inl (ValueError (''Install failed at '' @ c)),
      tr @ [Spawn (length (spawned tr)) (direct (str_split c)),
            Wait (length (spawned tr)) (exit_status w (length (spawned tr)) (str_split c))])"
  by (simp only: call.simps subprocess_call_def) (simp add: Let_def direct_def)

lemma clean_result:
  "clean w tr =
     (Inr (), tr @ [Spawn (length (spawned tr)) (direct (str_split ''make clean'')),
                    Wait (length (spawned tr))
                      (exit_status w (length (spawned tr)) (str_split ''make clean''))])"
  by (simp add: clean_def steps direct_def)

lemma scripted_configure_trace:
  assumes "agree_cpc self = Some v"
    and "\<not> popen_fails w (length (spawned tr))"
    and "\<not> write_fails w (length (written tr))"
    and "\<not> write_fails w (Suc (length (written tr)))"
  shows "configure w self tr =
     (Inr (),
      tr @ [TmpOpen (length (opened tr)),
            Spawn (length (spawned tr))
              \<lparr>args = [''./configure'', ''--prefix=$PWD/bin'', ''--with-cpc-modules''],
               shell = False, stdin = Pipe, stdout = ToFile (length (opened tr))\<rparr>,
            Write (length (spawned tr)) (''yes'' @ [CHR 0x0A]),
            Write (length (spawned tr)) [CHR 0x0A],
            TmpClose (length (opened tr))])"
  using assms
  by (simp add: configure_def steps split_commands written_append spawned_append opened_append)

lemma bind_preserves:
  assumes "\<And>tr. P tr \<Longrightarrow> P (snd (m tr))"
    and "\<And>x tr. P tr \<Longrightarrow> P (snd (k x tr))"
    and "P tr"
  shows "P (snd (bind m k tr))"
proof (cases "m tr")
  case (Pair r tr')
  with assms(1) [OF assms(3)] have "P tr'" by simp
  with Pair assms(2) show ?thesis
    by (cases r) (simp_all add: bind_def)
qed

section \<open>The run with the option unset\<close>

text \<open>
  C1: with \<open>agree_cpc\<close> unset and every external command exiting with status 0, the
  options pass finalization and \<open>run\<close> starts exactly six processes, each waited for
  before the next is started, in the order autoconf, configure, make clean, make, make check,
  make install, and returns normally.
\<close>

theorem run_unset_all_succeed:
  assumes "\<forall>p argv. exit_status w p argv = 0"
  shows "finalize_options initialize_options [] = (Inr (), []) \<and>
         run w initialize_options [] =
           (Inr (),
            [Spawn 0 (direct (str_split ''autoconf -o configure ac-tools/configure.ac'')),
             Wait 0 0,
             Spawn 1 (direct (str_split ''./configure --prefix=$PWD/bin --with-cpc-modules'')),
             Wait 1 0,
             Spawn 2 (direct (str_split ''make clean'')), Wait 2 0,
             Spawn 3 (direct (str_split ''make'')), Wait 3 0,
             Spawn 4 (direct (str_split ''make check'')), Wait 4 0,
             Spawn 5 (direct (str_split ''make install'')), Wait 5 0])"
  using assms
  by (simp add: phases steps initialize_options_def finalize_options_def direct_def
      split_commands)

theorem run_unset_all_succeed_witness:
  "run (always_exit 0) initialize_options [] =
     (Inr (),
      [Spawn 0 (direct [''autoconf'', ''-o'', ''configure'', ''ac-tools/configure.ac'']),
       Wait 0 0,
       Spawn 1 (direct [''./configure'', ''--prefix=$PWD/bin'', ''--with-cpc-modules'']),
       Wait 1 0,
       Spawn 2 (direct [''make'', ''clean'']), Wait 2 0,
       Spawn 3 (direct [''make'']), Wait 3 0,
       Spawn 4 (direct [''make'', ''check'']), Wait 4 0,
       Spawn 5 (direct [''make'', ''install'']), Wait 5 0])"
  using run_unset_all_succeed [of "always_exit 0"]
  by (simp add: always_exit_def split_commands)

section \<open>Validation of the option\<close>

text \<open>
  C2: for every value of \<open>agree_cpc\<close> that is set and is not the string \<open>yes\<close>,
  \<open>finalize_options\<close> raises an error whose message ends with the offending value, and
  it leaves the trace as it was: no process has been started when it fails.
\<close>

theorem finalize_rejects:
  assumes "agree_cpc self = Some v" and "v \<noteq> ''yes''"
  shows "finalize_options self tr =
           (Inl (ValueError (''--agree-cpc should be yes. Given: '' @ v)), tr) \<and>
         spawned (snd (finalize_options self tr)) = spawned tr"
  using assms by (simp add: finalize_options_def)

theorem finalize_rejects_witness:
  "finalize_options \<lparr>agree_cpc = Some ''no''\<rparr> [] =
     (Inl (ValueError ''--agree-cpc should be yes. Given: no''), []) \<and>
   spawned (snd (finalize_options \<lparr>agree_cpc = Some ''no''\<rparr> [])) = []"
  using finalize_rejects [of "\<lparr>agree_cpc = Some ''no''\<rparr>" "''no''" "[]"]
  by simp

section \<open>The sequence executor\<close>

text \<open>
  C3: for every list of command strings, \<open>_call\<close> runs the commands in list order, each as
  a process of its own that is waited for before the next is started, up to and including the
  first command whose exit status is not 0. If there is none it returns normally after the whole
  list; otherwise it raises an error whose message names that command, and no later command
  is run. Here \<open>k\<close> is the number of commands that exited with status 0 before the first
  failure.
\<close>

theorem call_aborts_at_first_failure:
  "\<exists>k\<le>length cmds.
     (\<forall>j<k. status_at w (length (spawned tr)) cmds j = 0) \<and>
     (if k = length cmds
      then call w cmds tr = (Inr (), tr @ seq_events w (length (spawned tr)) cmds)
      else status_at w (length (spawned tr)) cmds k \<noteq> 0 \<and>
           call w cmds tr =
             (Inl (ValueError (''Install failed at '' @ cmds ! k)),
              tr @ seq_events w (length (spawned tr)) (take (Suc k) cmds)))"
proof (induction cmds arbitrary: tr)
  case Nil
  show ?case by simp
next
  case (Cons c cs)
  let ?p = "length (spawned tr)"
  show ?case
  proof (cases "exit_status w ?p (str_split c) = 0")
    case False
    then have "status_at w ?p (c # cs) 0 \<noteq> 0"
      by (simp add: status_at_def)
    moreover have "call w (c # cs) tr =
        (Inl (ValueError (''Install failed at '' @ (c # cs) ! 0)),
         tr @ seq_events w ?p (take (Suc 0) (c # cs)))"
      using False by (simp add: call_Cons_fail del: call.simps)
    ultimately show ?thesis
      by (intro exI [of _ 0]) simp
  next
    case True
    let ?tr = "tr @ [Spawn ?p (direct (str_split c)), Wait ?p 0]"
    have p': "length (spawned ?tr) = Suc ?p"
      by (simp add: spawned_append)
    have step: "call w (c # cs) tr = call w cs ?tr"
      using True by (rule call_Cons_ok)
    from Cons.IH [of ?tr, unfolded p'] obtain k where k: "k \<le> length cs"
      and before: "\<forall>j<k. status_at w (Suc ?p) cs j = 0"
      and result: "if k = length cs
        then call w cs ?tr = (Inr (), ?tr @ seq_events w (Suc ?p) cs)
        else status_at w (Suc ?p) cs k \<noteq> 0 \<and>
             call w cs ?tr =
               (Inl (ValueError (''Install failed at '' @ cs ! k)),
                ?tr @ seq_events w (Suc ?p) (take (Suc k) cs))"
      by blast
    have shift: "status_at w ?p (c # cs) (Suc j) = status_at w (Suc ?p) cs j" for j
      by (simp add: status_at_def)
    have first: "status_at w ?p (c # cs) 0 = 0"
      using True by (simp add: status_at_def)
    have before': "\<forall>j<Suc k. status_at w ?p (c # cs) j = 0"
    proof (intro allI impI)
      fix j assume "j < Suc k"
      then show "status_at w ?p (c # cs) j = 0"
        using before first shift by (cases j) auto
    qed
    have result': "if Suc k = length (c # cs)
        then call w (c # cs) tr = (Inr (), tr @ seq_events w ?p (c # cs))
        else status_at w ?p (c # cs) (Suc k) \<noteq> 0 \<and>
             call w (c # cs) tr =
               (Inl (ValueError (''Install failed at '' @ (c # cs) ! Suc k)),
                tr @ seq_events w ?p (take (Suc (Suc k)) (c # cs)))"
      using result True by (simp add: step shift del: call.simps)
    from k before' result' show ?thesis
      by (intro exI [of _ "Suc k"]) simp
  qed
qed

theorem call_aborts_at_first_failure_witness:
  "call (only_fails 1 2) [''make'', ''make check'', ''make install''] [] =
     (Inl (ValueError ''Install failed at make check''),
      [Spawn 0 (direct [''make'']), Wait 0 0,
       Spawn 1 (direct [''make'', ''check'']), Wait 1 2])"
  using call_aborts_at_first_failure
    [of "[''make'', ''make check'', ''make install'']" "only_fails 1 2" "[]"]
  by (simp add: only_fails_def subprocess_call_def direct_def split_commands)

section \<open>The clean phase\<close>

text \<open>
  What a sequence does depends on the trace only through the number of processes started
  before it.
\<close>

lemma call_frame:
  "length (spawned tr) = length (spawned tr0) \<Longrightarrow>
   fst (call w cmds tr) = fst (call w cmds tr0) \<and>
   (\<exists>evs. snd (call w cmds tr) = tr @ evs \<and> snd (call w cmds tr0) = tr0 @ evs)"
proof (induction cmds arbitrary: tr tr0)
  case Nil
  show ?case by simp
next
  case (Cons c cs)
  let ?p = "length (spawned tr)"
  let ?evs = "[Spawn ?p (direct (str_split c)), Wait ?p (exit_status w ?p (str_split c))]"
  show ?case
  proof (cases "exit_status w ?p (str_split c) = 0")
    case False
    then show ?thesis
      using Cons.prems
      by (simp only: call.simps subprocess_call_def) (simp add: Let_def)
  next
    case True
    have l: "call w (c # cs) tr = call w cs (tr @ ?evs)"
      using True by (simp only: call.simps subprocess_call_def) (simp add: Let_def direct_def)
    have r: "call w (c # cs) tr0 = call w cs (tr0 @ ?evs)"
      using True Cons.prems
      by (simp only: call.simps subprocess_call_def) (simp add: Let_def direct_def)
    have "length (spawned (tr @ ?evs)) = length (spawned (tr0 @ ?evs))"
      using Cons.prems by (simp add: spawned_append)
    from Cons.IH [OF this] obtain evs where
      "fst (call w cs (tr @ ?evs)) = fst (call w cs (tr0 @ ?evs))"
      "snd (call w cs (tr @ ?evs)) = (tr @ ?evs) @ evs"
      "snd (call w cs (tr0 @ ?evs)) = (tr0 @ ?evs) @ evs"
      by blast
    then show ?thesis
      by (simp only: l r) simp
  qed
qed

text \<open>Only the clean phase runs \<open>make clean\<close>, so the other phases do not see its status.\<close>

lemma call_clean_succeeds:
  "\<forall>c\<in>set cmds. str_split c \<noteq> str_split ''make clean'' \<Longrightarrow>
   call (clean_succeeds w) cmds tr = call w cmds tr"
  by (induction cmds arbitrary: tr)
     (simp_all add: subprocess_call_def clean_succeeds_def Let_def)

lemma autoconf_clean_succeeds: "autoconf (clean_succeeds w) tr = autoconf w tr"
  unfolding autoconf_def by (rule call_clean_succeeds) (simp add: split_commands)

lemma make_clean_succeeds: "make (clean_succeeds w) tr = make w tr"
  unfolding make_def by (rule call_clean_succeeds) (simp add: split_commands)

lemma write_fails_clean_succeeds: "write_fails (clean_succeeds w) = write_fails w"
  by (simp add: clean_succeeds_def)

lemma popen_fails_clean_succeeds: "popen_fails (clean_succeeds w) = popen_fails w"
  by (simp add: clean_succeeds_def)

lemma configure_clean_succeeds: "configure (clean_succeeds w) self tr = configure w self tr"
proof (cases "agree_cpc self")
  case None
  have "call (clean_succeeds w) [''./configure --prefix=$PWD/bin --with-cpc-modules''] tr =
        call w [''./configure --prefix=$PWD/bin --with-cpc-modules''] tr"
    by (rule call_clean_succeeds) (simp add: split_commands)
  with None show ?thesis by (simp add: configure_def)
next
  case (Some v)
  then show ?thesis
    by (simp add: configure_def steps write_fails_clean_succeeds popen_fails_clean_succeeds)
qed

lemma make_after_clean:
  "fst (make w (snd (clean w' tr))) = fst (make w (snd (clean w tr))) \<and>
   spawned (snd (make w (snd (clean w' tr)))) = spawned (snd (make w (snd (clean w tr))))"
proof -
  let ?a = "snd (clean w' tr)" and ?b = "snd (clean w tr)"
  have "length (spawned ?a) = length (spawned ?b)"
    by (simp add: clean_result spawned_append)
  from call_frame [OF this, of w "[''make'', ''make check'', ''make install'']"]
  obtain evs where "fst (make w ?a) = fst (make w ?b)"
    and "snd (make w ?a) = ?a @ evs" and "snd (make w ?b) = ?b @ evs"
    unfolding make_def by blast
  then show ?thesis
    by (simp add: clean_result spawned_append)
qed

lemma run_unfold:
  "run w self tr =
     (case autoconf w tr of
        (Inl e, t1) \<Rightarrow> (Inl e, t1)
      | (Inr x, t1) \<Rightarrow>
          (case configure w self t1 of
             (Inl e, t2) \<Rightarrow> (Inl e, t2)
           | (Inr y, t2) \<Rightarrow> make w (snd (clean w t2))))"
  by (simp add: run_def bind_def clean_result split: prod.splits sum.splits)

text \<open>
  C4: the exit status of \<open>make clean\<close> never makes \<open>run\<close> fail. The clean phase runs
  \<open>make clean\<close>, waits for it and returns normally whatever its status; \<open>run\<close> then
  goes on to the build phase on the trace the clean phase leaves, and the result of the build
  phase is the result of \<open>run\<close>. So \<open>run\<close> returns the same result and starts the same
  processes in the same order as in the environment that differs only in \<open>make clean\<close>
  exiting with status 0.
\<close>

theorem clean_failure_ignored:
  "clean w tr =
     (Inr (), tr @ [Spawn (length (spawned tr)) (direct (str_split ''make clean'')),
                    Wait (length (spawned tr))
                      (exit_status w (length (spawned tr)) (str_split ''make clean''))]) \<and>
   run w self tr =
     (case autoconf w tr of
        (Inl e, t1) \<Rightarrow> (Inl e, t1)
      | (Inr x, t1) \<Rightarrow>
          (case configure w self t1 of
             (Inl e, t2) \<Rightarrow> (Inl e, t2)
           | (Inr y, t2) \<Rightarrow> make w (snd (clean w t2)))) \<and>
   fst (clean w tr) = Inr () \<and>
   fst (run w self tr) = fst (run (clean_succeeds w) self tr) \<and>
   spawned (snd (run w self tr)) = spawned (snd (run (clean_succeeds w) self tr))"
proof -
  have same: "fst (clean w tr) = Inr () \<and>
      fst (run w self tr) = fst (run (clean_succeeds w) self tr) \<and>
      spawned (snd (run w self tr)) = spawned (snd (run (clean_succeeds w) self tr))"
    using make_after_clean [of w "clean_succeeds w"]
    by (simp add: run_unfold [of w] run_unfold [of "clean_succeeds w"] autoconf_clean_succeeds
        configure_clean_succeeds make_clean_succeeds clean_result [of w tr]
        split: prod.splits sum.splits)
  from clean_result [of w tr] run_unfold [of w self tr] same show ?thesis
    by (intro conjI) (simp_all only:)
qed

theorem clean_failure_ignored_witness:
  "exit_status (only_fails 2 2) 2 (str_split ''make clean'') = 2 \<and>
   run (only_fails 2 2) initialize_options [] =
     (Inr (),
      [Spawn 0 (direct [''autoconf'', ''-o'', ''configure'', ''ac-tools/configure.ac'']),
       Wait 0 0,
       Spawn 1 (direct [''./configure'', ''--prefix=$PWD/bin'', ''--with-cpc-modules'']),
       Wait 1 0,
       Spawn 2 (direct [''make'', ''clean'']), Wait 2 2,
       Spawn 3 (direct [''make'']), Wait 3 0,
       Spawn 4 (direct [''make'', ''check'']), Wait 4 0,
       Spawn 5 (direct [''make'', ''install'']), Wait 5 0]) \<and>
   run (only_fails 2 2) \<lparr>agree_cpc = Some ''yes''\<rparr> [] =
     (Inr (),
      [Spawn 0 (direct [''autoconf'', ''-o'', ''configure'', ''ac-tools/configure.ac'']),
       Wait 0 0,
       TmpOpen 0,
       Spawn 1 \<lparr>args = [''./configure'', ''--prefix=$PWD/bin'', ''--with-cpc-modules''],
                shell = False, stdin = Pipe, stdout = ToFile 0\<rparr>,
       Write 1 (''yes'' @ [CHR 0x0A]), Write 1 [CHR 0x0A],
       TmpClose 0,
       Spawn 2 (direct [''make'', ''clean'']), Wait 2 2,
       Spawn 3 (direct [''make'']), Wait 3 0,
       Spawn 4 (direct [''make'', ''check'']), Wait 4 0,
       Spawn 5 (direct [''make'', ''install'']), Wait 5 0]) \<and>
   fst (run (clean_succeeds (only_fails 2 2)) initialize_options []) = Inr () \<and>
   map args (spawned (snd (run (clean_succeeds (only_fails 2 2)) initialize_options []))) =
     [[''autoconf'', ''-o'', ''configure'', ''ac-tools/configure.ac''],
      [''./configure'', ''--prefix=$PWD/bin'', ''--with-cpc-modules''],
      [''make'', ''clean''], [''make''], [''make'', ''check''], [''make'', ''install'']]"
proof -
  have status: "exit_status (only_fails 2 2) 2 (str_split ''make clean'') = 2"
    by (simp add: only_fails_def)
  have result: "run (only_fails 2 2) initialize_options [] =
     (Inr (),
      [Spawn 0 (direct [''autoconf'', ''-o'', ''configure'', ''ac-tools/configure.ac'']),
       Wait 0 0,
       Spawn 1 (direct [''./configure'', ''--prefix=$PWD/bin'', ''--with-cpc-modules'']),
       Wait 1 0,
       Spawn 2 (direct [''make'', ''clean'']), Wait 2 2,
       Spawn 3 (direct [''make'']), Wait 3 0,
       Spawn 4 (direct [''make'', ''check'']), Wait 4 0,
       Spawn 5 (direct [''make'', ''install'']), Wait 5 0])"
    by (simp add: phases steps only_fails_def initialize_options_def direct_def split_commands)
  have scripted: "run (only_fails 2 2) \<lparr>agree_cpc = Some ''yes''\<rparr> [] =
     (Inr (),
      [Spawn 0 (direct [''autoconf'', ''-o'', ''configure'', ''ac-tools/configure.ac'']),
       Wait 0 0,
       TmpOpen 0,
       Spawn 1 \<lparr>args = [''./configure'', ''--prefix=$PWD/bin'', ''--with-cpc-modules''],
                shell = False, stdin = Pipe, stdout = ToFile 0\<rparr>,
       Write 1 (''yes'' @ [CHR 0x0A]), Write 1 [CHR 0x0A],
       TmpClose 0,
       Spawn 2 (direct [''make'', ''clean'']), Wait 2 2,
       Spawn 3 (direct [''make'']), Wait 3 0,
       Spawn 4 (direct [''make'', ''check'']), Wait 4 0,
       Spawn 5 (direct [''make'', ''install'']), Wait 5 0])"
    by (simp add: phases steps only_fails_def direct_def split_commands)
  note inst = clean_failure_ignored [of "only_fails 2 2" "[]" initialize_options,
      THEN conjunct2, THEN conjunct2, THEN conjunct2]
  have "fst (run (clean_succeeds (only_fails 2 2)) initialize_options []) = Inr ()"
    using inst by (simp only: result fst_conv)
  moreover have
    "map args (spawned (snd (run (clean_succeeds (only_fails 2 2)) initialize_options []))) =
     map args (spawned (snd (run (only_fails 2 2) initialize_options [])))"
    using inst by (simp only:)
  ultimately show ?thesis
    using status scripted by (simp add: result direct_def)
qed

section \<open>The scripted configure phase\<close>

text \<open>A sequence reads only the statuses of the processes it starts itself.\<close>

lemma call_agree:
  assumes "\<And>p argv. length (spawned tr) \<le> p \<Longrightarrow> exit_status w' p argv = exit_status w p argv"
  shows "call w' cmds tr = call w cmds tr"
  using assms
proof (induction cmds arbitrary: tr)
  case Nil
  show ?case by simp
next
  case (Cons c cs)
  let ?p = "length (spawned tr)"
  have same: "exit_status w' ?p (str_split c) = exit_status w ?p (str_split c)"
    using Cons.prems by simp
  show ?case
  proof (cases "exit_status w ?p (str_split c) = 0")
    case False
    with same show ?thesis
      by (simp add: call_Cons_fail del: call.simps)
  next
    case True
    let ?tr = "tr @ [Spawn ?p (direct (str_split c)), Wait ?p 0]"
    have "call w' cs ?tr = call w cs ?tr"
    proof (rule Cons.IH)
      fix p argv
      assume "length (spawned ?tr) \<le> p"
      then have "?p \<le> p" by (simp add: spawned_append)
      then show "exit_status w' p argv = exit_status w p argv"
        by (rule Cons.prems)
    qed
    with True same show ?thesis
      by (simp add: call_Cons_ok del: call.simps)
  qed
qed

text \<open>
  C5: with \<open>agree_cpc\<close> set to \<open>yes\<close>, once autoconf has succeeded, the configure
  child has been started and the two writes to its input have gone through, \<open>run\<close> goes
  on to \<open>make clean\<close> and then to the
  build phase, whose result is the result of \<open>run\<close>. The exit status of the configure child
  (process 1) is never read: \<open>run\<close> does the same whatever status \<open>st\<close> the environment
  gives that process.
\<close>

theorem scripted_configure_unchecked:
  assumes "agree_cpc self = Some ''yes''"
    and "exit_status w 0 (str_split ''autoconf -o configure ac-tools/configure.ac'') = 0"
    and "\<not> write_fails w 0" and "\<not> write_fails w 1"
    and "\<not> popen_fails w 1"
  shows "finalize_options self [] = (Inr (), []) \<and>
     run w self [] =
     make w
       [Spawn 0 (direct (str_split ''autoconf -o configure ac-tools/configure.ac'')), Wait 0 0,
        TmpOpen 0,
        Spawn 1 \<lparr>args = str_split ''./configure --prefix=$PWD/bin --with-cpc-modules'',
                 shell = False, stdin = Pipe, stdout = ToFile 0\<rparr>,
        Write 1 (''yes'' @ [CHR 0x0A]), Write 1 [CHR 0x0A],
        TmpClose 0,
        Spawn 2 (direct (str_split ''make clean'')),
        Wait 2 (exit_status w 2 (str_split ''make clean''))] \<and>
     run (w\<lparr>exit_status := (exit_status w)(1 := st)\<rparr>) self [] = run w self []"
proof -
  let ?t1 = "[Spawn 0 (direct (str_split ''autoconf -o configure ac-tools/configure.ac'')),
              Wait 0 0]"
  let ?t2 = "\<lambda>v. [Spawn 0 (direct (str_split ''autoconf -o configure ac-tools/configure.ac'')),
        Wait 0 0,
        TmpOpen 0,
        Spawn 1 \<lparr>args = str_split ''./configure --prefix=$PWD/bin --with-cpc-modules'',
                 shell = False, stdin = Pipe, stdout = ToFile 0\<rparr>,
        Write 1 (''yes'' @ [CHR 0x0A]), Write 1 [CHR 0x0A],
        TmpClose 0,
        Spawn 2 (direct (str_split ''make clean'')),
        Wait 2 (exit_status v 2 (str_split ''make clean''))]"
  have main: "run v self [] = make v (?t2 v)"
    if ok: "exit_status v 0 (str_split ''autoconf -o configure ac-tools/configure.ac'') = 0"
      and w0: "\<not> write_fails v 0" and w1: "\<not> write_fails v 1"
      and st: "\<not> popen_fails v 1" for v
  proof -
    have a: "autoconf v [] = (Inr (), ?t1)"
      using ok by (simp add: autoconf_def call_Cons_ok del: call.simps) simp
    have c: "configure v self ?t1 =
       (Inr (), ?t1 @
          [TmpOpen 0,
           Spawn 1 \<lparr>args = str_split ''./configure --prefix=$PWD/bin --with-cpc-modules'',
                    shell = False, stdin = Pipe, stdout = ToFile 0\<rparr>,
           Write 1 (''yes'' @ [CHR 0x0A]), Write 1 [CHR 0x0A], TmpClose 0])"
      using assms(1) w0 w1 st by (simp add: scripted_configure_trace split_commands)
    show ?thesis
      by (simp add: run_unfold a c clean_result numeral_2_eq_2)
  qed
  have f: "finalize_options self [] = (Inr (), [])"
    using assms(1) by (simp add: finalize_options_def)
  let ?w' = "w\<lparr>exit_status := (exit_status w)(1 := st)\<rparr>"
  have "run ?w' self [] = make ?w' (?t2 ?w')"
    using assms(2-5) by (intro main) simp_all
  also have "?t2 ?w' = ?t2 w"
    by simp
  also have "make ?w' (?t2 w) = make w (?t2 w)"
    unfolding make_def by (rule call_agree) simp
  also have "\<dots> = run w self []"
    using assms(2-5) by (rule main [symmetric])
  finally have "run ?w' self [] = run w self []" .
  with f main [OF assms(2-5)] show ?thesis
    by (intro conjI)
qed

theorem scripted_configure_unchecked_witness:
  "exit_status (only_fails 1 9) 1 [''./configure'', ''--prefix=$PWD/bin'', ''--with-cpc-modules''] = 9 \<and>
   run (only_fails 1 9) \<lparr>agree_cpc = Some ''yes''\<rparr> [] =
     (Inr (),
      [Spawn 0 (direct [''autoconf'', ''-o'', ''configure'', ''ac-tools/configure.ac'']), Wait 0 0,
       TmpOpen 0,
       Spawn 1 \<lparr>args = [''./configure'', ''--prefix=$PWD/bin'', ''--with-cpc-modules''],
                shell = False, stdin = Pipe, stdout = ToFile 0\<rparr>,
       Write 1 (''yes'' @ [CHR 0x0A]), Write 1 [CHR 0x0A],
       TmpClose 0,
       Spawn 2 (direct [''make'', ''clean'']), Wait 2 0,
       Spawn 3 (direct [''make'']), Wait 3 0,
       Spawn 4 (direct [''make'', ''check'']), Wait 4 0,
       Spawn 5 (direct [''make'', ''install'']), Wait 5 0])"
proof -
  have h2: "exit_status (only_fails 1 9) 0
              (str_split ''autoconf -o configure ac-tools/configure.ac'') = 0"
    and h3: "\<not> write_fails (only_fails 1 9) 0" and h4: "\<not> write_fails (only_fails 1 9) 1"
    and h5: "\<not> popen_fails (only_fails 1 9) 1"
    by (simp_all add: only_fails_def)
  have h1: "agree_cpc \<lparr>agree_cpc = Some ''yes''\<rparr> = Some ''yes''"
    by simp
  from scripted_configure_unchecked [OF h1 h2 h3 h4 h5] show ?thesis
    by (simp add: make_def subprocess_call_def Let_def only_fails_def direct_def split_commands)
qed

text \<open>
  When the child starts and both writes go through, the scripted configure phase opens the
  temporary file, starts the child with its input on a pipe and its output on that file,
  writes the two lines \<open>yes\<close> and the empty line to the child's input and closes the
  temporary file: the phase consists of exactly these five events.
\<close>

lemma scripted_configure_input:
  assumes "agree_cpc self = Some ''yes''"
    and "\<not> popen_fails w (length (spawned tr))"
    and "\<not> write_fails w (length (written tr))"
    and "\<not> write_fails w (Suc (length (written tr)))"
  shows "written (snd (configure w self tr)) = written tr @ [''yes'' @ [CHR 0x0A], [CHR 0x0A]] \<and>
     configure w self tr =
     (Inr (),
      tr @ [TmpOpen (length (opened tr)),
            Spawn (length (spawned tr))
              \<lparr>args = [''./configure'', ''--prefix=$PWD/bin'', ''--with-cpc-modules''],
               shell = False, stdin = Pipe, stdout = ToFile (length (opened tr))\<rparr>,
            Write (length (spawned tr)) (''yes'' @ [CHR 0x0A]),
            Write (length (spawned tr)) [CHR 0x0A],
            TmpClose (length (opened tr))])"
  using assms by (simp add: scripted_configure_trace written_append)

text \<open>
  C6: with \<open>agree_cpc\<close> set to \<open>yes\<close>, \<open>configure\<close> writes exactly the two lines
  \<open>yes\<close> and the empty line to the child's standard input and then closes the child's input
  stream. The code does the first and not the second: in the environment where every process
  exits with status 0 the two writes are all that is written, the stream the phase then closes
  is the temporary file, and the child's input is never closed.
\<close>

theorem scripted_configure_never_closes_stdin:
  "configure (always_exit 0) \<lparr>agree_cpc = Some ''yes''\<rparr> [] =
     (Inr (),
      [TmpOpen 0,
       Spawn 0 \<lparr>args = [''./configure'', ''--prefix=$PWD/bin'', ''--with-cpc-modules''],
                shell = False, stdin = Pipe, stdout = ToFile 0\<rparr>,
       Write 0 (''yes'' @ [CHR 0x0A]), Write 0 [CHR 0x0A], TmpClose 0]) \<and>
   written (snd (configure (always_exit 0) \<lparr>agree_cpc = Some ''yes''\<rparr> [])) =
     [''yes'' @ [CHR 0x0A], [CHR 0x0A]] \<and>
   CloseStdin 0 \<notin> set (snd (configure (always_exit 0) \<lparr>agree_cpc = Some ''yes''\<rparr> []))"
  by (simp add: scripted_configure_trace always_exit_def)

section \<open>What a phase failure reports\<close>

text \<open>
  C7 (as amended): every error raised by \<open>_call\<close> is a \<open>ValueError\<close> whose message is
  \<open>Install failed at\<close> followed by the command line of the failing command: the first
  command of the list to exit with a non-zero status, every command before it having exited
  with status 0. The message holds the command line only.
\<close>

theorem call_error_names_command:
  assumes "fst (call w cmds tr) = Inl e"
  shows "\<exists>k<length cmds.
           e = ValueError (''Install failed at '' @ cmds ! k) \<and>
           status_at w (length (spawned tr)) cmds k \<noteq> 0 \<and>
           (\<forall>j<k. status_at w (length (spawned tr)) cmds j = 0)"
  using assms
proof (induction cmds arbitrary: tr)
  case Nil
  then show ?case by simp
next
  case (Cons c cs)
  let ?p = "length (spawned tr)"
  show ?case
  proof (cases "exit_status w ?p (str_split c) = 0")
    case False
    with Cons.prems have "e = ValueError (''Install failed at '' @ (c # cs) ! 0)"
      by (simp add: call_Cons_fail del: call.simps)
    moreover have "status_at w ?p (c # cs) 0 \<noteq> 0"
      using False by (simp add: status_at_def)
    ultimately show ?thesis
      by (intro exI [of _ 0]) simp
  next
    case True
    let ?tr = "tr @ [Spawn ?p (direct (str_split c)), Wait ?p 0]"
    have p': "length (spawned ?tr) = Suc ?p"
      by (simp add: spawned_append)
    from True Cons.prems have "fst (call w cs ?tr) = Inl e"
      by (simp add: call_Cons_ok del: call.simps)
    from Cons.IH [OF this, unfolded p'] obtain k where k: "k < length cs"
      and e: "e = ValueError (''Install failed at '' @ cs ! k)"
      and failed: "status_at w (Suc ?p) cs k \<noteq> 0"
      and before: "\<forall>j<k. status_at w (Suc ?p) cs j = 0"
      by blast
    have shift: "status_at w ?p (c # cs) (Suc j) = status_at w (Suc ?p) cs j" for j
      by (simp add: status_at_def)
    have first: "status_at w ?p (c # cs) 0 = 0"
      using True by (simp add: status_at_def)
    have before': "\<forall>j<Suc k. status_at w ?p (c # cs) j = 0"
    proof (intro allI impI)
      fix j assume "j < Suc k"
      then show "status_at w ?p (c # cs) j = 0"
        using before first shift by (cases j) auto
    qed
    from k e failed before' show ?thesis
      by (intro exI [of _ "Suc k"]) (simp add: shift)
  qed
qed

theorem call_error_names_command_witness:
  "fst (call (only_fails 1 2) [''make'', ''make check'', ''make install''] []) =
     Inl (ValueError ''Install failed at make check'') \<and>
   (\<exists>k<length [''make'', ''make check'', ''make install''].
        ValueError ''Install failed at make check'' =
          ValueError (''Install failed at '' @ [''make'', ''make check'', ''make install''] ! k) \<and>
        status_at (only_fails 1 2) (length (spawned []))
          [''make'', ''make check'', ''make install''] k \<noteq> 0 \<and>
        (\<forall>j<k. status_at (only_fails 1 2) (length (spawned []))
                 [''make'', ''make check'', ''make install''] j = 0))"
proof -
  have h: "fst (call (only_fails 1 2) [''make'', ''make check'', ''make install''] []) =
     Inl (ValueError ''Install failed at make check'')"
    by (simp add: only_fails_def subprocess_call_def Let_def spawned_append)
  from call_error_names_command [OF h] h show ?thesis
    by (intro conjI)
qed

text \<open>
  The claim as stated fails: the error raised when \<open>make\<close> exits with status 1 is the error
  raised when it exits with status 2, so the error does not report the status.
\<close>

theorem call_error_omits_status_counterexample:
  "exit_status (always_exit 1) 0 (str_split ''make'') \<noteq>
     exit_status (always_exit 2) 0 (str_split ''make'') \<and>
   fst (call (always_exit 1) [''make''] []) = Inl (ValueError ''Install failed at make'') \<and>
   fst (call (always_exit 2) [''make''] []) = Inl (ValueError ''Install failed at make'')"
  by (simp add: always_exit_def subprocess_call_def Let_def)

section \<open>Waiting for the processes\<close>

lemma quiet_step: "quiet tr \<Longrightarrow> quiet (tr @ [Spawn p sp, Wait p c])"
  by (simp add: quiet_def sequential_from_append live_after_append)

lemma quiet_call: "quiet tr \<Longrightarrow> quiet (snd (call w cmds tr))"
proof (induction cmds arbitrary: tr)
  case Nil
  then show ?case by simp
next
  case (Cons c cs)
  let ?p = "length (spawned tr)"
  show ?case
  proof (cases "exit_status w ?p (str_split c) = 0")
    case False
    with Cons.prems show ?thesis
      by (simp add: call_Cons_fail quiet_step del: call.simps)
  next
    case True
    with Cons.prems Cons.IH show ?thesis
      by (simp add: call_Cons_ok quiet_step del: call.simps)
  qed
qed

lemma quiet_clean: "quiet tr \<Longrightarrow> quiet (snd (clean w tr))"
  by (simp add: clean_result quiet_step)

text \<open>
  With the option unset every process is started by \<open>subprocess.call\<close>, which waits for it:
  the trace of \<open>run\<close> is sequential in every environment.
\<close>

lemma unset_run_sequential:
  assumes "agree_cpc self = None"
  shows "sequential (snd (run w self []))"
proof -
  have "quiet (snd (configure w self tr))" if "quiet tr" for tr
    using that assms by (simp add: configure_def quiet_call del: call.simps)
  then have "quiet (snd (run w self []))"
    unfolding run_def autoconf_def make_def
    by (intro bind_preserves [where P = quiet] quiet_call quiet_clean)
       (simp_all add: quiet_def)
  then show ?thesis
    by (simp add: quiet_def sequential_def)
qed

text \<open>
  C8: every process \<open>run\<close> starts is waited for before the next one is started. With
  \<open>agree_cpc\<close> set to \<open>yes\<close> and every process exiting with status 0 this fails: the
  configure child is started by \<open>subprocess.Popen\<close> and never waited for, and
  \<open>make clean\<close> is started after it.
\<close>

theorem scripted_child_not_waited:
  "\<not> sequential (snd (run (always_exit 0) \<lparr>agree_cpc = Some ''yes''\<rparr> []))"
proof -
  have "run (always_exit 0) \<lparr>agree_cpc = Some ''yes''\<rparr> [] =
     (Inr (),
      [Spawn 0 (direct [''autoconf'', ''-o'', ''configure'', ''ac-tools/configure.ac'']), Wait 0 0,
       TmpOpen 0,
       Spawn 1 \<lparr>args = [''./configure'', ''--prefix=$PWD/bin'', ''--with-cpc-modules''],
                shell = False, stdin = Pipe, stdout = ToFile 0\<rparr>,
       Write 1 (''yes'' @ [CHR 0x0A]), Write 1 [CHR 0x0A],
       TmpClose 0,
       Spawn 2 (direct [''make'', ''clean'']), Wait 2 0,
       Spawn 3 (direct [''make'']), Wait 3 0,
       Spawn 4 (direct [''make'', ''check'']), Wait 4 0,
       Spawn 5 (direct [''make'', ''install'']), Wait 5 0])"
    by (simp add: phases steps always_exit_def direct_def split_commands)
  then show ?thesis
    by (simp add: sequential_def)
qed

section \<open>The temporary file of the scripted configure phase\<close>

text \<open>
  C9 (as amended): in the scripted configure phase the temporary file that receives the
  child's output is closed whenever the phase returns normally: the file it opened is then
  the one it closed.
\<close>

theorem sink_closed_on_normal_exit:
  assumes "agree_cpc self = Some ''yes''"
    and "fst (configure w self tr) = Inr ()"
  shows "opened (snd (configure w self tr)) = opened tr @ [length (opened tr)] \<and>
         closed (snd (configure w self tr)) = closed tr @ [length (opened tr)]"
proof -
  have started: "\<not> popen_fails w (length (spawned tr))"
    using assms by (auto simp: configure_def steps spawned_append)
  have first: "\<not> write_fails w (length (written tr))"
    using assms started
    by (auto simp: configure_def steps spawned_append written_append)
  have second: "\<not> write_fails w (Suc (length (written tr)))"
    using assms started first
    by (auto simp: configure_def steps spawned_append written_append)
  from assms(1) started first second show ?thesis
    by (simp add: scripted_configure_trace opened_append closed_append)
qed

theorem sink_closed_on_normal_exit_witness:
  "fst (configure (always_exit 0) \<lparr>agree_cpc = Some ''yes''\<rparr> []) = Inr () \<and>
   opened (snd (configure (always_exit 0) \<lparr>agree_cpc = Some ''yes''\<rparr> [])) = [0] \<and>
   closed (snd (configure (always_exit 0) \<lparr>agree_cpc = Some ''yes''\<rparr> [])) = [0]"
proof -
  have h1: "agree_cpc \<lparr>agree_cpc = Some ''yes''\<rparr> = Some ''yes''"
    by simp
  have h2: "fst (configure (always_exit 0) \<lparr>agree_cpc = Some ''yes''\<rparr> []) = Inr ()"
    by (simp add: scripted_configure_trace always_exit_def)
  from sink_closed_on_normal_exit [OF h1 h2] h2 show ?thesis
    by simp
qed

text \<open>
  The claim as stated fails: when the child cannot be started, \<open>subprocess.Popen\<close> raises
  after the temporary file has been opened; the phase ends with that exception and the file
  has not been closed.
\<close>

theorem sink_left_open_counterexample:
  "configure child_not_started \<lparr>agree_cpc = Some ''yes''\<rparr> [] = (Inl OSError, [TmpOpen 0]) \<and>
   opened (snd (configure child_not_started \<lparr>agree_cpc = Some ''yes''\<rparr> [])) = [0] \<and>
   closed (snd (configure child_not_started \<lparr>agree_cpc = Some ''yes''\<rparr> [])) = []"
  by (simp add: configure_def steps child_not_started_def)

section \<open>Commands are executed directly\<close>

lemma argvs_Nil: "argvs [] = []"
  by (simp add: argvs_def)

lemma argvs_append: "argvs (xs @ ys) = argvs xs @ argvs ys"
  by (simp add: argvs_def spawned_append)

lemma argvs_step:
  "argvs (tr @ [Spawn p (direct (str_split c)), Wait p st]) = argvs tr @ [tokenized c]"
  by (simp add: argvs_def spawned_append direct_def tokenized_def)

text \<open>
  The sequence executor starts the split of each command it reaches, without a shell: of all
  commands when it returns normally, and of one at least when there is one.
\<close>

lemma argvs_call:
  "\<exists>n\<le>length cmds.
     argvs (snd (call w cmds tr)) = argvs tr @ map tokenized (take n cmds) \<and>
     (fst (call w cmds tr) = Inr () \<longrightarrow> n = length cmds) \<and>
     (cmds \<noteq> [] \<longrightarrow> 0 < n)"
proof (induction cmds arbitrary: tr)
  case Nil
  show ?case by simp
next
  case (Cons c cs)
  let ?p = "length (spawned tr)"
  show ?case
  proof (cases "exit_status w ?p (str_split c) = 0")
    case False
    then have "argvs (snd (call w (c # cs) tr)) = argvs tr @ map tokenized (take (Suc 0) (c # cs))"
      and "fst (call w (c # cs) tr) \<noteq> Inr ()"
      by (simp_all add: call_Cons_fail argvs_step del: call.simps)
    then show ?thesis
      by (intro exI [of _ "Suc 0"]) simp
  next
    case True
    let ?tr = "tr @ [Spawn ?p (direct (str_split c)), Wait ?p 0]"
    have step: "call w (c # cs) tr = call w cs ?tr"
      using True by (rule call_Cons_ok)
    from Cons.IH [of ?tr] obtain n where n: "n \<le> length cs"
      and started: "argvs (snd (call w cs ?tr)) = argvs ?tr @ map tokenized (take n cs)"
      and all: "fst (call w cs ?tr) = Inr () \<longrightarrow> n = length cs"
      by blast
    from n started all show ?thesis
      by (intro exI [of _ "Suc n"]) (simp add: step argvs_step del: call.simps)
  qed
qed

lemma starts_call: "starts (map tokenized cmds) (call w cmds)"
  unfolding starts_def
proof (intro allI)
  fix tr
  from argvs_call [of cmds w tr] obtain n where "n \<le> length cmds"
    and "argvs (snd (call w cmds tr)) = argvs tr @ map tokenized (take n cmds)"
    and "fst (call w cmds tr) = Inr () \<longrightarrow> n = length cmds"
    by blast
  then show "\<exists>n\<le>length (map tokenized cmds).
      argvs (snd (call w cmds tr)) = argvs tr @ take n (map tokenized cmds) \<and>
      (\<forall>x. fst (call w cmds tr) = Inr x \<longrightarrow> n = length (map tokenized cmds))"
    by (intro exI [of _ n]) (simp add: take_map)
qed

lemma starts_bind:
  assumes m: "starts xs m" and k: "\<And>x. starts ys (k x)"
  shows "starts (xs @ ys) (bind m k)"
  unfolding starts_def
proof (intro allI)
  fix tr
  from m obtain n where n: "n \<le> length xs"
    and first: "argvs (snd (m tr)) = argvs tr @ take n xs"
    and all: "\<forall>x. fst (m tr) = Inr x \<longrightarrow> n = length xs"
    unfolding starts_def by blast
  show "\<exists>n\<le>length (xs @ ys).
      argvs (snd (bind m k tr)) = argvs tr @ take n (xs @ ys) \<and>
      (\<forall>x. fst (bind m k tr) = Inr x \<longrightarrow> n = length (xs @ ys))"
  proof (cases "m tr")
    case (Pair r tr')
    show ?thesis
    proof (cases r)
      case (Inl e)
      with Pair n first show ?thesis
        by (intro exI [of _ n]) (simp add: bind_def)
    next
      case (Inr x)
      with Pair all have full: "n = length xs" by simp
      from k [of x] obtain n' where n': "n' \<le> length ys"
        and second: "argvs (snd (k x tr')) = argvs tr' @ take n' ys"
        and all': "\<forall>y. fst (k x tr') = Inr y \<longrightarrow> n' = length ys"
        unfolding starts_def by blast
      from Pair Inr first full n' second all' show ?thesis
        by (intro exI [of _ "length xs + n'"]) (simp add: bind_def)
    qed
  qed
qed

lemma starts_configure:
  "starts [tokenized ''./configure --prefix=$PWD/bin --with-cpc-modules'']
     (configure w self)"
proof (cases "agree_cpc self")
  case None
  have "starts (map tokenized [''./configure --prefix=$PWD/bin --with-cpc-modules''])
     (call w [''./configure --prefix=$PWD/bin --with-cpc-modules''])"
    by (rule starts_call)
  with None show ?thesis
    by (simp add: configure_def del: call.simps)
next
  case (Some v)
  show ?thesis
    unfolding starts_def
  proof (intro allI)
    fix tr
    show "\<exists>n\<le>length [tokenized ''./configure --prefix=$PWD/bin --with-cpc-modules''].
        argvs (snd (configure w self tr)) =
          argvs tr @ take n [tokenized ''./configure --prefix=$PWD/bin --with-cpc-modules''] \<and>
        (\<forall>x. fst (configure w self tr) = Inr x \<longrightarrow>
           n = length [tokenized ''./configure --prefix=$PWD/bin --with-cpc-modules''])"
    proof (cases "popen_fails w (length (spawned tr))")
      case True
      with Some show ?thesis
        by (intro exI [of _ 0])
           (simp add: configure_def steps spawned_append argvs_def)
    next
      case False
      with Some show ?thesis
        by (intro exI [of _ "Suc 0"])
           (simp add: configure_def steps spawned_append argvs_def tokenized_def)
    qed
  qed
qed

lemma starts_clean: "starts [tokenized ''make clean''] (clean w)"
  unfolding starts_def
  by (intro allI exI [of _ "Suc 0"]) (simp add: clean_result argvs_step)

lemma starts_run: "starts (map tokenized run_commands) (run w self)"
proof -
  have a: "starts (map tokenized [''autoconf -o configure ac-tools/configure.ac'']) (autoconf w)"
    unfolding autoconf_def by (rule starts_call)
  have m: "starts (map tokenized [''make'', ''make check'', ''make install'']) (make w)"
    unfolding make_def by (rule starts_call)
  have "starts
     (map tokenized [''autoconf -o configure ac-tools/configure.ac''] @
      [tokenized ''./configure --prefix=$PWD/bin --with-cpc-modules''] @
      [tokenized ''make clean''] @
      map tokenized [''make'', ''make check'', ''make install''])
     (run w self)"
    unfolding run_def
    by (intro starts_bind a m starts_configure starts_clean)
  then show ?thesis
    by (simp add: run_commands_def)
qed

lemma run_all_succeed:
  assumes "\<forall>p argv. exit_status w p argv = 0"
    and "\<not> popen_fails w 1" and "\<not> write_fails w 0" and "\<not> write_fails w 1"
  shows "\<exists>x. fst (run w self []) = Inr x"
proof (cases "agree_cpc self")
  case None
  with assms(1) show ?thesis
    by (simp add: phases steps)
next
  case (Some v)
  with assms show ?thesis
    by (simp add: phases steps)
qed

text \<open>
  C10: every command string is split on whitespace and the tokens are handed to
  \<open>subprocess\<close> with \<open>shell\<close> false. The processes \<open>_call\<close> starts are, in order, the
  splits of the first \<open>n\<close> commands of its list, one at least when there is one. The
  processes \<open>run\<close> starts are, in order, the splits of the first \<open>n\<close> of the six command
  strings, in both variants of configure, and all six when all goes well. The split of the
  configure command is \<open>./configure\<close>, \<open>--prefix=$PWD/bin\<close>, \<open>--with-cpc-modules\<close>, with
  \<open>$PWD\<close> as written.
\<close>

theorem commands_executed_directly:
  "(\<exists>n\<le>length cmds.
      argvs (snd (call w cmds [])) = map (\<lambda>c. (str_split c, False)) (take n cmds) \<and>
      (cmds \<noteq> [] \<longrightarrow> 0 < n)) \<and>
   (\<exists>n\<le>length run_commands.
      argvs (snd (run w self [])) = map (\<lambda>c. (str_split c, False)) (take n run_commands)) \<and>
   ((\<forall>p argv. exit_status w p argv = 0) \<and> \<not> popen_fails w 1 \<and>
    \<not> write_fails w 0 \<and> \<not> write_fails w 1 \<longrightarrow>
      argvs (snd (run w self [])) = map (\<lambda>c. (str_split c, False)) run_commands) \<and>
   map str_split run_commands =
     [[''autoconf'', ''-o'', ''configure'', ''ac-tools/configure.ac''],
      [''./configure'', ''--prefix=$PWD/bin'', ''--with-cpc-modules''],
      [''make'', ''clean''], [''make''], [''make'', ''check''], [''make'', ''install'']]"
proof -
  have tok: "tokenized = (\<lambda>c. (str_split c, False))"
    by (simp add: tokenized_def fun_eq_iff)
  have "\<exists>n\<le>length (map tokenized run_commands).
      argvs (snd (run w self [])) = argvs [] @ take n (map tokenized run_commands) \<and>
      (\<forall>x. fst (run w self []) = Inr x \<longrightarrow> n = length (map tokenized run_commands))"
    using starts_run [of w self] unfolding starts_def by blast
  then obtain n where n: "n \<le> length run_commands"
    and started: "argvs (snd (run w self [])) = take n (map tokenized run_commands)"
    and all: "\<forall>x. fst (run w self []) = Inr x \<longrightarrow> n = length run_commands"
    by (auto simp: argvs_Nil)
  have 1: "\<exists>n\<le>length cmds.
      argvs (snd (call w cmds [])) = map (\<lambda>c. (str_split c, False)) (take n cmds) \<and>
      (cmds \<noteq> [] \<longrightarrow> 0 < n)"
    using argvs_call [of cmds w "[]"] by (auto simp: tok argvs_Nil)
  have 2: "\<exists>n\<le>length run_commands.
      argvs (snd (run w self [])) = map (\<lambda>c. (str_split c, False)) (take n run_commands)"
    using n started by (intro exI [of _ n]) (simp add: tok take_map)
  have 3: "(\<forall>p argv. exit_status w p argv = 0) \<and> \<not> popen_fails w 1 \<and>
    \<not> write_fails w 0 \<and> \<not> write_fails w 1 \<longrightarrow>
      argvs (snd (run w self [])) = map (\<lambda>c. (str_split c, False)) run_commands"
  proof (intro impI)
    assume "(\<forall>p argv. exit_status w p argv = 0) \<and> \<not> popen_fails w 1 \<and>
      \<not> write_fails w 0 \<and> \<not> write_fails w 1"
    then have "\<exists>x. fst (run w self []) = Inr x"
      by (intro run_all_succeed) simp_all
    with all have "n = length run_commands" by blast
    with started show "argvs (snd (run w self [])) = map (\<lambda>c. (str_split c, False)) run_commands"
      by (simp add: tok)
  qed
  have 4: "map str_split run_commands =
     [[''autoconf'', ''-o'', ''configure'', ''ac-tools/configure.ac''],
      [''./configure'', ''--prefix=$PWD/bin'', ''--with-cpc-modules''],
      [''make'', ''clean''], [''make''], [''make'', ''check''], [''make'', ''install'']]"
    by (simp add: run_commands_def split_commands)
  from 1 2 3 4 show ?thesis
    by (intro conjI)
qed

theorem commands_executed_directly_witness:
  "argvs (snd (run (always_exit 0) \<lparr>agree_cpc = Some ''yes''\<rparr> [])) =
     [([''autoconf'', ''-o'', ''configure'', ''ac-tools/configure.ac''], False),
      ([''./configure'', ''--prefix=$PWD/bin'', ''--with-cpc-modules''], False),
      ([''make'', ''clean''], False), ([''make''], False), ([''make'', ''check''], False),
      ([''make'', ''install''], False)] \<and>
   argvs (snd (run (always_exit 0) \<lparr>agree_cpc = None\<rparr> [])) =
     [([''autoconf'', ''-o'', ''configure'', ''ac-tools/configure.ac''], False),
      ([''./configure'', ''--prefix=$PWD/bin'', ''--with-cpc-modules''], False),
      ([''make'', ''clean''], False), ([''make''], False), ([''make'', ''check''], False),
      ([''make'', ''install''], False)]"
proof -
  have ok: "(\<forall>p argv. exit_status (always_exit 0) p argv = 0) \<and>
      \<not> popen_fails (always_exit 0) 1 \<and>
      \<not> write_fails (always_exit 0) 0 \<and> \<not> write_fails (always_exit 0) 1"
    by (simp add: always_exit_def)
  have tokens: "map (\<lambda>c. (str_split c, False)) run_commands =
     [([''autoconf'', ''-o'', ''configure'', ''ac-tools/configure.ac''], False),
      ([''./configure'', ''--prefix=$PWD/bin'', ''--with-cpc-modules''], False),
      ([''make'', ''clean''], False), ([''make''], False), ([''make'', ''check''], False),
      ([''make'', ''install''], False)]"
    by (simp add: run_commands_def split_commands)
  from commands_executed_directly [of "[]" "always_exit 0" "\<lparr>agree_cpc = Some ''yes''\<rparr>"] ok
  have "argvs (snd (run (always_exit 0) \<lparr>agree_cpc = Some ''yes''\<rparr> [])) =
      map (\<lambda>c. (str_split c, False)) run_commands"
    by blast
  moreover
  from commands_executed_directly [of "[]" "always_exit 0" "\<lparr>agree_cpc = None\<rparr>"] ok
  have "argvs (snd (run (always_exit 0) \<lparr>agree_cpc = None\<rparr> [])) =
      map (\<lambda>c. (str_split c, False)) run_commands"
    by blast
  ultimately show ?thesis
    by (simp only: tokens)
qed

end
